theory Spec2Isabelle
  imports Complex_Main "HOL-Library.Word"
begin

section \<open>Token counter: a shallow embedding of counter.py\<close>

text \<open>
  The program walks a directory tree, classifies every file by extension and by a
  null-byte sniff, extracts text from PDF and text files, counts tokens with a
  tiktoken encoder and prints a summary.

  What the program does beyond computing values is made explicit:
  \<^item> every function returns the list of effects it performed (files opened, encoder
    invocations, lines printed) together with its outcome;
  \<^item> an outcome is a returned value, a process exit (\<open>sys.exit\<close>) or an exception
    that nobody caught;
  \<^item> the file system is a tree; every file carries what each way of reading it
    yields, an exception or data.

  File names and paths are byte strings; \<open>str.lower\<close> is modelled on the ASCII
  letters.
\<close>

subsection \<open>Exceptions, outcomes and effects\<close>

datatype exn =
    KeyboardInterrupt
  | KeyError string
  | ValueError string
  | OSError string
  | UnicodeDecodeError string
  | PdfReadError string

datatype 'a outcome = Return 'a | Exit int | Raise exn

text \<open>
  The values numpy's reductions return: an int64, a float64 (represented by the
  rational number it approximates) or nan.
\<close>

datatype npnum = NpInt int | NpFloat rat | NaN

datatype fmt_arg = S string | I int | N npnum | X exn

text \<open>
  \<open>Print fmt args\<close> is \<open>print(fmt.format(*args))\<close>; \<open>print(e)\<close> is
  \<open>Print ''{}'' [X e]\<close>.
\<close>

datatype event =
    Open string string
  | Encode string
  | Print string "fmt_arg list"

type_synonym 'a io = "event list \<times> 'a outcome"

definition io_bind :: "'a io \<Rightarrow> ('a \<Rightarrow> 'b io) \<Rightarrow> 'b io" where
  "io_bind m f =
     (case m of
        (evs, Return x) \<Rightarrow> (case f x of (evs', r) \<Rightarrow> (evs @ evs', r))
      | (evs, Exit c) \<Rightarrow> (evs, Exit c)
      | (evs, Raise e) \<Rightarrow> (evs, Raise e))"

subsection \<open>The file system\<close>

text \<open>
  \<open>binary_read\<close> is what \<open>open(filepath, 'rb')\<close> and reading from it yield: an
  exception, or the bytes of the file. \<open>text_read\<close> is what
  \<open>open(filepath, 'r', encoding = 'UTF-8')\<close> and \<open>fs.read()\<close> yield. \<open>pdf_read\<close> is
  what PyPDF2 yields: an exception on opening the file or building the reader, or
  for each page in document order what \<open>page.extract_text()\<close> yields.
\<close>

record file_rec =
  fname :: string
  binary_read :: "exn + 8 word list"
  text_read :: "exn + string"
  pdf_read :: "exn + (exn + string) list"

text \<open>
  A directory entry is a file or a directory with its entries. A symbolic link to a
  directory and a directory that cannot be listed behave as a directory without
  entries: \<open>os.walk\<close> reports their name and yields nothing below them.
\<close>

datatype node = File file_rec | Dir string "node list"

fun file_entries :: "node list \<Rightarrow> file_rec list" where
  "file_entries [] = []"
| "file_entries (File f # es) = f # file_entries es"
| "file_entries (Dir d sub # es) = file_entries es"

fun dir_entries :: "node list \<Rightarrow> (string \<times> node list) list" where
  "dir_entries [] = []"
| "dir_entries (File f # es) = dir_entries es"
| "dir_entries (Dir d sub # es) = (d, sub) # dir_entries es"

subsection \<open>Paths and extensions\<close>

definition startswith :: "string \<Rightarrow> string \<Rightarrow> bool" where
  "startswith s p = (take (length p) s = p)"

definition endswith :: "string \<Rightarrow> string \<Rightarrow> bool" where
  "endswith s p = (length p \<le> length s \<and> drop (length s - length p) s = p)"

text \<open>\<open>posixpath.join\<close> of two components.\<close>

definition path_join :: "string \<Rightarrow> string \<Rightarrow> string" where
  "path_join a b =
     (if startswith b ''/'' then b
      else if a = [] \<or> endswith a ''/'' then a @ b
      else a @ ''/'' @ b)"

text \<open>\<open>str.rfind\<close> of one character: the last index where it occurs, or -1.\<close>

fun rfind_from :: "char \<Rightarrow> string \<Rightarrow> int \<Rightarrow> int \<Rightarrow> int" where
  "rfind_from c [] i found = found"
| "rfind_from c (x # xs) i found = rfind_from c xs (i + 1) (if x = c then i else found)"

definition rfind :: "string \<Rightarrow> char \<Rightarrow> int" where
  "rfind p c = rfind_from c p 0 (- 1)"

text \<open>
  The loop of \<open>genericpath._splitext\<close> that skips leading dots: is there a character
  other than the dot at an index from \<open>filenameIndex\<close> up to \<open>dotIndex\<close>?
\<close>

function skip_dots :: "string \<Rightarrow> nat \<Rightarrow> nat \<Rightarrow> bool" where
  "skip_dots p filenameIndex dotIndex =
     (if filenameIndex < dotIndex
      then (if p ! filenameIndex \<noteq> CHR ''.'' then True
            else skip_dots p (filenameIndex + 1) dotIndex)
      else False)"
  by pat_completeness auto
termination
  by (relation "measure (\<lambda>(p, i, d). d - i)") auto

declare skip_dots.simps [simp del]

definition splitext :: "string \<Rightarrow> string \<times> string" where
  "splitext p =
     (let sepIndex = rfind p CHR ''/'';
          dotIndex = rfind p CHR ''.''
      in if dotIndex > sepIndex \<and> skip_dots p (nat (sepIndex + 1)) (nat dotIndex)
         then (take (nat dotIndex) p, drop (nat dotIndex) p)
         else (p, []))"

definition lower_char :: "char \<Rightarrow> char" where
  "lower_char c =
     (let n = (of_char c :: nat)
      in if 65 \<le> n \<and> n \<le> 90 then char_of (n + 32) else c)"

definition lower :: "string \<Rightarrow> string" where
  "lower s = map lower_char s"

definition EXCLUDED_EXTENSIONS :: "string set" where
  "EXCLUDED_EXTENSIONS =
     {''.png'', ''.jpg'', ''.jpeg'', ''.gif'', ''.bmp'', ''.ico'', ''.svg'', ''.webp'',
      ''.mp3'', ''.mp4'', ''.wav'', ''.avi'', ''.mov'', ''.mkv'', ''.flac'',
      ''.zip'', ''.tar'', ''.gz'', ''.rar'', ''.7z'',
      ''.exe'', ''.dll'', ''.so'', ''.dylib'',
      ''.pyc'', ''.pyo'', ''.class'',
      ''.bin'', ''.dat'', ''.db'', ''.sqlite'',
      ''.ttf'', ''.otf'', ''.woff'', ''.woff2''}"

subsection \<open>The walk\<close>

text \<open>
  The test of the list comprehension that \<open>scan_directory\<close> assigns to \<open>dirs[:]\<close>.
\<close>

definition keep_dir :: "string \<Rightarrow> bool" where
  "keep_dir d =
     (\<not> startswith d ''.'' \<and> d \<notin> {''node_modules'', ''__pycache__'', ''venv'', ''.git''})"

text \<open>
  \<open>os.walk\<close>, top down: a directory yields its path, the names of its
  subdirectories and its other entries, then the walk descends, in order, into the
  subdirectories whose names the caller left in \<open>dirs\<close>. A path that is not a
  directory yields nothing.
\<close>

fun os_walk :: "string \<Rightarrow> node \<Rightarrow> (string \<times> string list \<times> file_rec list) list" where
  "os_walk dirpath (File f) = []"
| "os_walk dirpath (Dir d es) =
     (dirpath, map fst (dir_entries es), file_entries es)
     # concat (map (\<lambda>n. case n of
                           Dir d' sub \<Rightarrow> if keep_dir d' then os_walk (path_join dirpath d') n else []
                         | File f \<Rightarrow> [])
                   es)"

subsection \<open>The tokenizer and numpy\<close>

text \<open>
  An encoder is what \<open>encoder.encode\<close> does with a text: it returns the tokens or
  raises (tiktoken raises \<open>ValueError\<close> on a text that contains a special token).
\<close>

type_synonym encoder = "string \<Rightarrow> exn + int list"

text \<open>
  \<open>np.sum\<close> of a list of Python ints is an int64 (the sum wraps around), of the empty
  list the float 0.0; \<open>np.mean\<close> and \<open>np.median\<close> of the empty list are nan (numpy
  warns and returns), otherwise floats.
\<close>

definition wrap64 :: "int \<Rightarrow> int" where
  "wrap64 n = (n + 2 ^ 63) mod 2 ^ 64 - 2 ^ 63"

definition np_sum :: "int list \<Rightarrow> npnum" where
  "np_sum xs = (if xs = [] then NpFloat 0 else NpInt (wrap64 (sum_list xs)))"

definition np_mean :: "int list \<Rightarrow> npnum" where
  "np_mean xs =
     (if xs = [] then NaN else NpFloat (of_int (sum_list xs) / of_nat (length xs)))"

definition np_median :: "int list \<Rightarrow> npnum" where
  "np_median xs =
     (let n = length xs; ys = sort xs
      in if n = 0 then NaN
         else if odd n then NpFloat (of_int (ys ! (n div 2)))
         else NpFloat ((of_int (ys ! (n div 2 - 1)) + of_int (ys ! (n div 2))) / 2))"

subsection \<open>The functions of counter.py\<close>

definition is_binary_file :: "string \<Rightarrow> file_rec \<Rightarrow> bool io" where
  "is_binary_file filepath f =
     (case binary_read f of
        Inr bytes \<Rightarrow> ([Open filepath ''rb''], Return (0 \<in> set (take 8192 bytes)))
      | Inl KeyboardInterrupt \<Rightarrow> ([Open filepath ''rb''], Exit 0)
      | Inl e \<Rightarrow> ([Open filepath ''rb''], Return True))"

text \<open>
  The loop over \<open>reader.pages\<close>: the text parts collected, and the exception that
  ended the loop, if one did.
\<close>

fun read_pages :: "(exn + string) list \<Rightarrow> string list \<Rightarrow> string list \<times> exn option" where
  "read_pages [] text_parts = (text_parts, None)"
| "read_pages (Inl e # pages) text_parts = (text_parts, Some e)"
| "read_pages (Inr page_text # pages) text_parts =
     read_pages pages (if page_text \<noteq> [] then text_parts @ [page_text] else text_parts)"

text \<open>\<open>sep.join(parts)\<close>.\<close>

fun str_join :: "string \<Rightarrow> string list \<Rightarrow> string" where
  "str_join sep [] = []"
| "str_join sep [x] = x"
| "str_join sep (x # y # ys) = x @ sep @ str_join sep (y # ys)"

text \<open>
  The \<open>try\<close> block of \<open>extract_text_from_pdf\<close>: the text parts collected, and the
  exception that left the block, if one did.
\<close>

definition try_pages :: "file_rec \<Rightarrow> string list \<times> exn option" where
  "try_pages f =
     (case pdf_read f of
        Inl e \<Rightarrow> ([], Some e)
      | Inr pages \<Rightarrow> read_pages pages [])"

definition extract_text_from_pdf :: "string \<Rightarrow> file_rec \<Rightarrow> string io" where
  "extract_text_from_pdf filepath f =
     (case try_pages f of
        (text_parts, None) \<Rightarrow>
          ([Open filepath ''rb''], Return (str_join [CHR 0x0A] text_parts))
      | (text_parts, Some KeyboardInterrupt) \<Rightarrow>
          ([Open filepath ''rb''], Exit 0)
      | (text_parts, Some e) \<Rightarrow>
          ([Open filepath ''rb'',
            Print ''[warning] Cannot read PDF file: {}'' [S filepath],
            Print ''{}'' [X e]],
           Return (str_join [CHR 0x0A] text_parts)))"

text \<open>The warning of \<open>read_text_file\<close>, a Korean text, as its UTF-8 bytes.\<close>

definition read_failure_format :: string where
  "read_failure_format =
     ''[warning] '' @
     [CHR 0xED, CHR 0x8C, CHR 0x8C, CHR 0xEC, CHR 0x9D, CHR 0xBC, CHR 0x20,
      CHR 0xEC, CHR 0x9D, CHR 0xBD, CHR 0xEA, CHR 0xB8, CHR 0xB0, CHR 0x20,
      CHR 0xEC, CHR 0x8B, CHR 0xA4, CHR 0xED, CHR 0x8C, CHR 0xA8] @ '': {}''"

definition read_text_file :: "string \<Rightarrow> file_rec \<Rightarrow> string io" where
  "read_text_file filepath f =
     (case text_read f of
        Inr s \<Rightarrow> ([Open filepath ''r''], Return s)
      | Inl KeyboardInterrupt \<Rightarrow> ([Open filepath ''r''], Exit 0)
      | Inl e \<Rightarrow>
          ([Open filepath ''r'', Print read_failure_format [S filepath], Print ''{}'' [X e]],
           Return []))"

definition count_tokens :: "string \<Rightarrow> encoder \<Rightarrow> int io" where
  "count_tokens s encoder =
     (if s = [] then ([], Return 0)
      else (case encoder s of
              Inr toks \<Rightarrow> ([Encode s], Return (int (length toks)))
            | Inl e \<Rightarrow> ([Encode s], Raise e)))"

record stats =
  tokens :: "int list"
  total_files :: int
  pdf_files :: int
  text_files :: int
  skipped_files :: int

definition info_line :: "string \<Rightarrow> int \<Rightarrow> event" where
  "info_line filepath n = Print ''[info] {}: {:,} tokens'' [S filepath, I n]"

text \<open>The body of the loop over the files of one directory.\<close>

definition process_file :: "encoder \<Rightarrow> string \<Rightarrow> file_rec \<Rightarrow> stats \<Rightarrow> stats io" where
  "process_file encoder dirpath f st =
     (let filepath = path_join dirpath (fname f);
          ext = lower (snd (splitext (fname f)))
      in if ext \<in> EXCLUDED_EXTENSIONS then
           ([], Return (st\<lparr>skipped_files := skipped_files st + 1\<rparr>))
         else if ext = ''.pdf'' then
           io_bind (extract_text_from_pdf filepath f) (\<lambda>s.
           io_bind (count_tokens s encoder) (\<lambda>n.
             ([info_line filepath n],
              Return (st\<lparr>tokens := tokens st @ [n],
                         pdf_files := pdf_files st + 1,
                         total_files := total_files st + 1\<rparr>))))
         else
           io_bind (is_binary_file filepath f) (\<lambda>b.
             if b then ([], Return (st\<lparr>skipped_files := skipped_files st + 1\<rparr>))
             else
               io_bind (read_text_file filepath f) (\<lambda>s.
               io_bind (count_tokens s encoder) (\<lambda>n.
                 ([info_line filepath n],
                  Return (st\<lparr>tokens := tokens st @ [n],
                             text_files := text_files st + 1,
                             total_files := total_files st + 1\<rparr>))))))"

fun process_files :: "encoder \<Rightarrow> string \<Rightarrow> file_rec list \<Rightarrow> stats \<Rightarrow> stats io" where
  "process_files encoder dirpath [] st = ([], Return st)"
| "process_files encoder dirpath (f # fs) st =
     io_bind (process_file encoder dirpath f st) (process_files encoder dirpath fs)"

text \<open>The loop over what the walk yields.\<close>

fun scan_walk :: "encoder \<Rightarrow> (string \<times> string list \<times> file_rec list) list \<Rightarrow> stats \<Rightarrow> stats io" where
  "scan_walk encoder [] st = ([], Return st)"
| "scan_walk encoder ((dirpath, dirs, fs) # rest) st =
     io_bind (process_files encoder dirpath fs st) (scan_walk encoder rest)"

definition initial_stats :: stats where
  "initial_stats =
     \<lparr>tokens = [], total_files = 0, pdf_files = 0, text_files = 0, skipped_files = 0\<rparr>"

definition scan_directory :: "string \<Rightarrow> node \<Rightarrow> encoder \<Rightarrow> stats io" where
  "scan_directory base_path tree encoder =
     scan_walk encoder (os_walk base_path tree) initial_stats"

text \<open>
  The environment of a run: what a path names in the file system (\<open>None\<close> when it
  does not exist), and the two lookups of the tiktoken registry.
\<close>

record env =
  lookup :: "string \<Rightarrow> node option"
  encoding_for_model :: "string \<Rightarrow> exn + encoder"
  get_encoding :: "string \<Rightarrow> exn + encoder"

record args =
  base_path :: string
  model :: string

text \<open>The \<open>try\<close> statement of \<open>main\<close> that binds \<open>encoder\<close>.\<close>

definition resolve_encoder :: "env \<Rightarrow> string \<Rightarrow> encoder io" where
  "resolve_encoder ev m =
     (case encoding_for_model ev m of
        Inr encoder \<Rightarrow> ([], Return encoder)
      | Inl KeyboardInterrupt \<Rightarrow> ([], Exit 0)
      | Inl (KeyError k) \<Rightarrow>
          (case get_encoding ev ''cl100k_base'' of
             Inr encoder \<Rightarrow> ([], Return encoder)
           | Inl e \<Rightarrow> ([], Raise e))
      | Inl e \<Rightarrow> ([], Raise e))"

definition summary :: "stats \<Rightarrow> event list" where
  "summary st =
     [Print (replicate 60 CHR ''-'') [],
      Print ''[info] # of total files: {:,}'' [I (total_files st)],
      Print ''[info] # of PDF files: {:,}'' [I (pdf_files st)],
      Print ''[info] # of text files: {:,}'' [I (text_files st)],
      Print ''[info] # of skipped files: {:,}'' [I (skipped_files st)],
      Print ''[info] # of total tokens: {:,}'' [N (np_sum (tokens st))],
      Print ''[info] Avg. tokens per documents: {:,}'' [N (np_mean (tokens st))],
      Print ''[info] Med. tokens per documents: {:,}'' [N (np_median (tokens st))]]"

definition main :: "env \<Rightarrow> args \<Rightarrow> unit io" where
  "main ev a =
     (case lookup ev (base_path a) of
        None \<Rightarrow>
          ([Print ''[error] <base_path> does not exist: {}'' [S (base_path a)]], Exit 0)
      | Some tree \<Rightarrow>
          io_bind (resolve_encoder ev (model a)) (\<lambda>encoder.
          io_bind (scan_directory (base_path a) tree encoder) (\<lambda>st.
            (summary st, Return ()))))"

subsection \<open>Notions used in the statements\<close>

text \<open>All files the walk hands to the loop body, in order.\<close>

definition walked_files :: "(string \<times> string list \<times> file_rec list) list \<Rightarrow> file_rec list" where
  "walked_files w = concat (map (\<lambda>(dirpath, dirs, fs). fs) w)"


text \<open>
  The counters are consistent with one another and with \<open>n\<close> files handled so far.
\<close>

definition stats_ok :: "stats \<Rightarrow> int \<Rightarrow> bool" where
  "stats_ok st n \<longleftrightarrow>
     total_files st = pdf_files st + text_files st \<and>
     int (length (tokens st)) = total_files st \<and>
     skipped_files st + total_files st = n"


text \<open>No read of the file is interrupted.\<close>

definition uninterrupted :: "file_rec \<Rightarrow> bool" where
  "uninterrupted f \<longleftrightarrow>
     binary_read f \<noteq> Inl KeyboardInterrupt \<and>
     text_read f \<noteq> Inl KeyboardInterrupt \<and>
     snd (try_pages f) \<noteq> Some KeyboardInterrupt"

subsection \<open>Example inputs\<close>

text \<open>An encoder that never raises: one token for each byte.\<close>

definition byte_encoder :: encoder where
  "byte_encoder s = Inr (map of_char s)"

text \<open>Python's \<open>sub in s\<close> on strings.\<close>

fun contains :: "string \<Rightarrow> string \<Rightarrow> bool" where
  "contains [] sub = (sub = [])"
| "contains (c # cs) sub = (startswith (c # cs) sub \<or> contains cs sub)"

text \<open>
  An encoder that, as tiktoken's \<open>encode\<close> does with its default arguments, raises
  \<open>ValueError\<close> on a text that contains a special token.
\<close>

definition strict_encoder :: encoder where
  "strict_encoder s =
     (if contains s ''<|endoftext|>''
      then Inl (ValueError ''disallowed special token'')
      else Inr (map of_char s))"

text \<open>A readable file with the given name and ASCII content, which is not a PDF.\<close>

definition plain_file :: "string \<Rightarrow> string \<Rightarrow> file_rec" where
  "plain_file name s =
     \<lparr>fname = name, binary_read = Inr (map of_char s), text_read = Inr s,
      pdf_read = Inl (PdfReadError ''EOF marker not found'')\<rparr>"

text \<open>A PDF whose first page yields text and whose second page cannot be parsed.\<close>

definition broken_pdf :: file_rec where
  "broken_pdf =
     \<lparr>fname = ''report.pdf'', binary_read = Inr [37, 80, 68, 70],
      text_read = Inl (UnicodeDecodeError ''invalid start byte''),
      pdf_read = Inr [Inr ''hello'', Inl (PdfReadError ''bad xref'')]\<rparr>"

text \<open>A file with a null byte among its first bytes.\<close>

definition binary_blob :: file_rec where
  "binary_blob =
     \<lparr>fname = ''core.dump'', binary_read = Inr [127, 69, 0, 1],
      text_read = Inl (UnicodeDecodeError ''invalid start byte''),
      pdf_read = Inl (PdfReadError ''EOF marker not found'')\<rparr>"

definition demo_tree :: node where
  "demo_tree =
     Dir ''corpus''
       [File (plain_file ''a.txt'' ''hi''),
        File (plain_file ''Photo.PNG'' ''x''),
        File broken_pdf,
        Dir ''.git'' [File (plain_file ''config'' ''c'')],
        Dir ''sub'' [File (plain_file ''.env'' ''k=v'')],
        File binary_blob]"

text \<open>
  An environment with two existing paths and a registry that knows one model; the
  default encoding is the encoder that never raises.
\<close>

definition demo_env :: env where
  "demo_env =
     \<lparr>lookup = (\<lambda>p. if p = ''corpus'' then Some demo_tree
                     else if p = ''empty'' then Some (Dir ''empty'' [Dir ''sub'' []])
                     else None),
      encoding_for_model =
        (\<lambda>m. if m = ''gpt-4o'' then Inr strict_encoder else Inl (KeyError m)),
      get_encoding =
        (\<lambda>n. if n = ''cl100k_base'' then Inr byte_encoder else Inl (ValueError n))\<rparr>"

text \<open>
  A directory with three readable text files; the second contains the text of a
  special token.
\<close>

definition special_tree :: node where
  "special_tree =
     Dir ''corpus''
       [File (plain_file ''a.txt'' ''hi''),
        File (plain_file ''notes.txt'' ''<|endoftext|>''),
        File (plain_file ''b.txt'' ''later'')]"

definition special_env :: env where
  "special_env =
     \<lparr>lookup = (\<lambda>p. if p = ''corpus'' then Some special_tree else None),
      encoding_for_model =
        (\<lambda>m. if m = ''gpt-4o'' then Inr strict_encoder else Inl (KeyError m)),
      get_encoding =
        (\<lambda>n. if n = ''cl100k_base'' then Inr byte_encoder else Inl (ValueError n))\<rparr>"


section \<open>Properties\<close>

subsection \<open>Sequencing and evaluation lemmas\<close>

lemma io_bind_Return: "io_bind (evs, Return x) f = (evs @ fst (f x), snd (f x))"
  by (simp add: io_bind_def split: prod.splits)

lemma io_bind_Exit: "io_bind (evs, Exit c) f = (evs, Exit c)"
  by (simp add: io_bind_def)

lemma io_bind_Raise: "io_bind (evs, Raise e) f = (evs, Raise e)"
  by (simp add: io_bind_def)


lemma io_bind_ReturnD:
  "io_bind m f = (evs, Return y) \<Longrightarrow>
   \<exists>evs1 x evs2. m = (evs1, Return x) \<and> f x = (evs2, Return y) \<and> evs = evs1 @ evs2"
  by (cases m) (auto simp: io_bind_def split: outcome.splits prod.splits)

lemma demo_scan:
  "scan_directory ''corpus'' demo_tree byte_encoder =
     ([Open ''corpus/a.txt'' ''rb'', Open ''corpus/a.txt'' ''r'', Encode ''hi'',
       info_line ''corpus/a.txt'' 2,
       Open ''corpus/report.pdf'' ''rb'',
       Print ''[warning] Cannot read PDF file: {}'' [S ''corpus/report.pdf''],
       Print ''{}'' [X (PdfReadError ''bad xref'')],
       Encode ''hello'', info_line ''corpus/report.pdf'' 5,
       Open ''corpus/core.dump'' ''rb'',
       Open ''corpus/sub/.env'' ''rb'', Open ''corpus/sub/.env'' ''r'', Encode ''k=v'',
       info_line ''corpus/sub/.env'' 3],
      Return \<lparr>tokens = [2, 5, 3], total_files = 3, pdf_files = 1, text_files = 2,
              skipped_files = 2\<rparr>)"
  by code_simp

lemma scan_walk_no_files:
  "walked_files w = [] \<Longrightarrow> scan_walk encoder w st = ([], Return st)"
proof (induction w)
  case Nil
  then show ?case by simp
next
  case (Cons x w)
  obtain dirpath dirs fs where x: "x = (dirpath, dirs, fs)" by (cases x) auto
  from Cons.prems x have "fs = []" and "walked_files w = []"
    by (simp_all add: walked_files_def)
  with Cons.IH show ?case by (simp add: x io_bind_Return)
qed

subsection \<open>The counters\<close>

lemma process_file_cases:
  assumes "process_file encoder dirpath f st = (evs, Return st')"
  shows "st' = st\<lparr>skipped_files := skipped_files st + 1\<rparr> \<or>
         (\<exists>n. st' = st\<lparr>tokens := tokens st @ [n], pdf_files := pdf_files st + 1,
                        total_files := total_files st + 1\<rparr>) \<or>
         (\<exists>n. st' = st\<lparr>tokens := tokens st @ [n], text_files := text_files st + 1,
                        total_files := total_files st + 1\<rparr>)"
  using assms
  by (auto simp: process_file_def Let_def split: if_splits dest!: io_bind_ReturnD)

lemma process_file_counts:
  assumes "process_file encoder dirpath f st = (evs, Return st')" and "stats_ok st n"
  shows "stats_ok st' (n + 1)"
  using process_file_cases [OF assms(1)] assms(2)
  by (auto simp: stats_ok_def)

lemma process_files_counts:
  "process_files encoder dirpath fs st = (evs, Return st') \<Longrightarrow> stats_ok st n \<Longrightarrow>
   stats_ok st' (n + int (length fs))"
proof (induction fs arbitrary: st evs n)
  case Nil
  then show ?case by simp
next
  case (Cons f fs)
  from Cons.prems(1) obtain evs1 st1 evs2 where
    a: "process_file encoder dirpath f st = (evs1, Return st1)" and
    b: "process_files encoder dirpath fs st1 = (evs2, Return st')"
    by (auto dest!: io_bind_ReturnD)
  from process_file_counts [OF a Cons.prems(2)] have "stats_ok st1 (n + 1)" .
  from Cons.IH [OF b this] show ?case by (simp add: add.assoc)
qed

lemma scan_walk_counts:
  "scan_walk encoder w st = (evs, Return st') \<Longrightarrow> stats_ok st n \<Longrightarrow>
   stats_ok st' (n + int (length (walked_files w)))"
proof (induction w arbitrary: st evs n)
  case Nil
  then show ?case by (simp add: walked_files_def)
next
  case (Cons x w)
  obtain dirpath dirs fs where x: "x = (dirpath, dirs, fs)" by (cases x) auto
  from Cons.prems(1) x obtain evs1 st1 evs2 where
    a: "process_files encoder dirpath fs st = (evs1, Return st1)" and
    b: "scan_walk encoder w st1 = (evs2, Return st')"
    by (auto dest!: io_bind_ReturnD)
  from process_files_counts [OF a Cons.prems(2)] have "stats_ok st1 (n + int (length fs))" .
  from Cons.IH [OF b this] show ?case by (simp add: x walked_files_def add.assoc)
qed

text \<open>
  Claim C1. Whenever \<open>scan_directory\<close> returns statistics, \<open>total_files\<close> is the sum
  of \<open>pdf_files\<close> and \<open>text_files\<close>, the token-count sequence has \<open>total_files\<close>
  entries, and \<open>skipped_files\<close> is the number of files the walk handed to the loop
  minus the number of token-count samples: it counts exactly the files that
  contributed no sample.
\<close>

theorem scan_directory_counts:
  assumes "scan_directory base tree encoder = (evs, Return st)"
  shows "total_files st = pdf_files st + text_files st \<and>
         int (length (tokens st)) = total_files st \<and>
         skipped_files st =
           int (length (walked_files (os_walk base tree))) - int (length (tokens st))"
proof -
  have "stats_ok initial_stats 0"
    by (simp add: stats_ok_def initial_stats_def)
  from scan_walk_counts [OF assms [unfolded scan_directory_def] this]
  show ?thesis by (auto simp: stats_ok_def)
qed

theorem scan_directory_counts_witness:
  "snd (scan_directory ''corpus'' demo_tree byte_encoder) =
     Return \<lparr>tokens = [2, 5, 3], total_files = 3, pdf_files = 1, text_files = 2,
             skipped_files = 2\<rparr> \<and>
   length (walked_files (os_walk ''corpus'' demo_tree)) = 5 \<and>
   (3::int) = 1 + 2 \<and> int (length [2, 5, 3::int]) = 3 \<and> (2::int) = 5 - 3"
proof -
  have w: "length (walked_files (os_walk ''corpus'' demo_tree)) = 5"
    by code_simp
  from scan_directory_counts [OF demo_scan] w show ?thesis
    by (simp add: demo_scan)
qed

subsection \<open>The binary sniff\<close>

text \<open>
  Claim C3. For a file that is neither excluded nor a PDF and whose binary read is not
  interrupted, \<open>is_binary_file\<close> opens the file once, looks at no more than its first
  8192 bytes, and returns \<open>True\<close> exactly when a null byte is among them or the read
  raised; a file for which it returns \<open>True\<close> increments only \<open>skipped_files\<close>.
\<close>

theorem binary_sniff:
  assumes "lower (snd (splitext (fname f))) \<notin> EXCLUDED_EXTENSIONS"
      and "lower (snd (splitext (fname f))) \<noteq> ''.pdf''"
      and "binary_read f \<noteq> Inl KeyboardInterrupt"
  shows "is_binary_file filepath f =
           ([Open filepath ''rb''],
            Return (case binary_read f of
                      Inr bytes \<Rightarrow> 0 \<in> set (take 8192 bytes)
                    | Inl e \<Rightarrow> True)) \<and>
         (is_binary_file (path_join dirpath (fname f)) f = (evs, Return True) \<longrightarrow>
          process_file encoder dirpath f st =
            (evs, Return (st\<lparr>skipped_files := skipped_files st + 1\<rparr>)))"
proof
  show "is_binary_file filepath f =
           ([Open filepath ''rb''],
            Return (case binary_read f of
                      Inr bytes \<Rightarrow> 0 \<in> set (take 8192 bytes)
                    | Inl e \<Rightarrow> True))"
  proof (cases "binary_read f")
    case (Inl e)
    with assms(3) show ?thesis
      by (cases e) (simp_all add: is_binary_file_def)
  next
    case (Inr bytes)
    then show ?thesis by (simp add: is_binary_file_def)
  qed
next
  show "is_binary_file (path_join dirpath (fname f)) f = (evs, Return True) \<longrightarrow>
          process_file encoder dirpath f st =
            (evs, Return (st\<lparr>skipped_files := skipped_files st + 1\<rparr>))"
    using assms(1,2) by (simp add: process_file_def io_bind_Return)
qed

theorem binary_sniff_witness:
  "is_binary_file ''dumps/core.dump'' binary_blob = ([Open ''dumps/core.dump'' ''rb''], Return True) \<and>
   process_file byte_encoder ''dumps'' binary_blob initial_stats =
     ([Open ''dumps/core.dump'' ''rb''], Return (initial_stats\<lparr>skipped_files := 1\<rparr>))"
proof -
  have ext: "lower (snd (splitext ''core.dump'')) = ''.dump''"
    by code_simp
  have h1: "lower (snd (splitext (fname binary_blob))) \<notin> EXCLUDED_EXTENSIONS"
    by (simp add: binary_blob_def ext EXCLUDED_EXTENSIONS_def)
  have h2: "lower (snd (splitext (fname binary_blob))) \<noteq> ''.pdf''"
    by (simp add: binary_blob_def ext)
  have h3: "binary_read binary_blob \<noteq> Inl KeyboardInterrupt"
    by (simp add: binary_blob_def)
  have p: "path_join ''dumps'' (fname binary_blob) = ''dumps/core.dump''"
    by (simp add: binary_blob_def path_join_def startswith_def endswith_def)
  have b: "(case binary_read binary_blob of
              Inr bytes \<Rightarrow> 0 \<in> set (take 8192 bytes) | Inl e \<Rightarrow> True) = True"
    by (simp add: binary_blob_def)
  from binary_sniff [OF h1 h2 h3, of "''dumps/core.dump''" "''dumps''"
      "[Open ''dumps/core.dump'' ''rb'']" byte_encoder initial_stats]
  show ?thesis
    unfolding p b by (simp add: initial_stats_def)
qed

text \<open>Bytes after the first 8192 play no part in the result.\<close>

lemma sniff_ignores_later_bytes:
  assumes "binary_read f = Inr (bytes @ later)" and "length bytes = 8192"
  shows "is_binary_file filepath f = ([Open filepath ''rb''], Return (0 \<in> set bytes))"
  using assms by (simp add: is_binary_file_def)

subsection \<open>A PDF that cannot be read\<close>





subsection \<open>Counting tokens\<close>

text \<open>
  Claim C8. For every text and encoder, \<open>count_tokens\<close> returns 0 for the empty string
  without invoking the encoder (no effect is recorded, whatever the encoder is); for
  a non-empty string that the encoder encodes it invokes the encoder once on that
  exact string and returns the number of tokens; the result depends on the encoder
  only through what it yields for that string, so the same input under the same model
  gives the same count.
\<close>

theorem count_tokens_spec:
  "count_tokens [] encoder = ([], Return 0) \<and>
   (s \<noteq> [] \<longrightarrow> encoder s = Inr toks \<longrightarrow>
      count_tokens s encoder = ([Encode s], Return (int (length toks)))) \<and>
   (encoder s = encoder' s \<longrightarrow> count_tokens s encoder = count_tokens s encoder')"
  by (simp add: count_tokens_def)

theorem count_tokens_spec_witness:
  "count_tokens [] byte_encoder = ([], Return 0) \<and>
   count_tokens ''abc'' byte_encoder = ([Encode ''abc''], Return 3)"
  using count_tokens_spec [of byte_encoder "''abc''" "map of_char ''abc''" byte_encoder]
  by (simp add: byte_encoder_def)

subsection \<open>Excluded extensions\<close>

text \<open>
  Claim C2. A file whose lowercased extension is in the exclusion set is never opened
  and nothing is printed or encoded for it (the loop body records no effect); the
  loop body returns the statistics with only \<open>skipped_files\<close> incremented.
\<close>

theorem excluded_only_skipped:
  "lower (snd (splitext (fname f))) \<in> EXCLUDED_EXTENSIONS \<Longrightarrow>
   process_file encoder dirpath f st =
     ([], Return (st\<lparr>skipped_files := skipped_files st + 1\<rparr>))"
  by (simp add: process_file_def)

theorem excluded_only_skipped_witness:
  "lower (snd (splitext (fname (plain_file ''Photo.PNG'' ''x'')))) \<in> EXCLUDED_EXTENSIONS \<and>
   process_file byte_encoder ''docs'' (plain_file ''Photo.PNG'' ''x'') initial_stats =
     ([], Return (initial_stats\<lparr>skipped_files := 1\<rparr>))"
proof -
  have ext: "lower (snd (splitext ''Photo.PNG'')) = ''.png''"
    by code_simp
  have h: "lower (snd (splitext (fname (plain_file ''Photo.PNG'' ''x'')))) \<in> EXCLUDED_EXTENSIONS"
    by (simp add: plain_file_def ext EXCLUDED_EXTENSIONS_def)
  show ?thesis
    using h excluded_only_skipped [OF h, of byte_encoder "''docs''" initial_stats]
    by (simp add: initial_stats_def)
qed

subsection \<open>A base path that does not exist\<close>



subsection \<open>A model name the registry does not know\<close>



subsection \<open>A directory without files\<close>

text \<open>
  Claim C6. If the walk below an existing base path finds no file, \<open>main\<close> returns
  without an error having printed exactly the summary: the four counters are 0, the
  total is numpy's sum of the empty list, 0.0, and the mean and the median are
  reported as numpy's value for the empty list, nan.
\<close>

theorem empty_scan_summary:
  assumes "lookup ev (base_path a) = Some tree"
      and "walked_files (os_walk (base_path a) tree) = []"
      and "resolve_encoder ev (model a) = ([], Return enc)"
  shows "main ev a =
           ([Print (replicate 60 CHR ''-'') [],
             Print ''[info] # of total files: {:,}'' [I 0],
             Print ''[info] # of PDF files: {:,}'' [I 0],
             Print ''[info] # of text files: {:,}'' [I 0],
             Print ''[info] # of skipped files: {:,}'' [I 0],
             Print ''[info] # of total tokens: {:,}'' [N (NpFloat 0)],
             Print ''[info] Avg. tokens per documents: {:,}'' [N NaN],
             Print ''[info] Med. tokens per documents: {:,}'' [N NaN]],
            Return ())"
proof -
  have "scan_directory (base_path a) tree enc = ([], Return initial_stats)"
    using assms(2) by (simp add: scan_directory_def scan_walk_no_files)
  with assms(1,3) show ?thesis
    by (simp add: main_def io_bind_Return summary_def initial_stats_def
        np_sum_def np_mean_def np_median_def)
qed

theorem empty_scan_summary_witness:
  "main demo_env \<lparr>base_path = ''empty'', model = ''gpt-4o''\<rparr> =
           ([Print (replicate 60 CHR ''-'') [],
             Print ''[info] # of total files: {:,}'' [I 0],
             Print ''[info] # of PDF files: {:,}'' [I 0],
             Print ''[info] # of text files: {:,}'' [I 0],
             Print ''[info] # of skipped files: {:,}'' [I 0],
             Print ''[info] # of total tokens: {:,}'' [N (NpFloat 0)],
             Print ''[info] Avg. tokens per documents: {:,}'' [N NaN],
             Print ''[info] Med. tokens per documents: {:,}'' [N NaN]],
            Return ())"
proof -
  let ?a = "\<lparr>base_path = ''empty'', model = ''gpt-4o''\<rparr>"
  have h1: "lookup demo_env (base_path ?a) = Some (Dir ''empty'' [Dir ''sub'' []])"
    by (simp add: demo_env_def)
  have k: "keep_dir ''sub''"
    by (simp add: keep_dir_def startswith_def)
  have h2: "walked_files (os_walk (base_path ?a) (Dir ''empty'' [Dir ''sub'' []])) = []"
    by (simp add: walked_files_def k)
  have h3: "resolve_encoder demo_env (model ?a) = ([], Return strict_encoder)"
    by (simp add: resolve_encoder_def demo_env_def)
  from empty_scan_summary [OF h1 h2 h3] show ?thesis .
qed

subsection \<open>An exception of the encoder\<close>

text \<open>
  Claim C9 at a failing input. The base path exists and nothing interrupts the run.
  The encoder raises \<open>ValueError\<close> on the second file; no handler is around
  \<open>count_tokens\<close>, so the exception leaves \<open>scan_directory\<close> and \<open>main\<close>: the third
  file is never opened and no summary is printed.
\<close>

theorem encoder_error_aborts_run:
  "main special_env \<lparr>base_path = ''corpus'', model = ''gpt-4o''\<rparr> =
     ([Open ''corpus/a.txt'' ''rb'', Open ''corpus/a.txt'' ''r'', Encode ''hi'',
       info_line ''corpus/a.txt'' 2,
       Open ''corpus/notes.txt'' ''rb'', Open ''corpus/notes.txt'' ''r'',
       Encode ''<|endoftext|>''],
      Raise (ValueError ''disallowed special token''))"
  by code_simp

subsection \<open>Runs in which the encoder does not raise\<close>

text \<open>
  With an encoder that encodes every text and no interrupted read, every call of the
  loop body returns, so the scan returns and \<open>main\<close> prints the summary: the exceptions
  of the three readers never leave the function that reads.
\<close>

lemma count_tokens_returns:
  assumes "\<forall>s. \<exists>toks. encoder s = Inr toks"
  shows "\<exists>evs n. count_tokens s encoder = (evs, Return n)"
proof (cases "s = []")
  case True
  then show ?thesis by (simp add: count_tokens_def)
next
  case False
  from assms obtain toks where "encoder s = Inr toks" by blast
  with False show ?thesis by (simp add: count_tokens_def)
qed

lemma is_binary_file_returns:
  assumes "binary_read f \<noteq> Inl KeyboardInterrupt"
  shows "\<exists>b. is_binary_file p f = ([Open p ''rb''], Return b)"
proof (cases "binary_read f")
  case (Inl e)
  with assms show ?thesis by (cases e) (auto simp: is_binary_file_def)
next
  case (Inr bytes)
  then show ?thesis by (simp add: is_binary_file_def)
qed

lemma read_text_file_returns:
  assumes "text_read f \<noteq> Inl KeyboardInterrupt"
  shows "\<exists>evs s. read_text_file p f = (evs, Return s)"
proof (cases "text_read f")
  case (Inl e)
  with assms show ?thesis by (cases e) (simp_all add: read_text_file_def)
next
  case (Inr s)
  then show ?thesis by (simp add: read_text_file_def)
qed

lemma extract_text_from_pdf_returns:
  assumes "snd (try_pages f) \<noteq> Some KeyboardInterrupt"
  shows "\<exists>evs s. extract_text_from_pdf p f = (evs, Return s)"
proof -
  obtain text_parts err where t: "try_pages f = (text_parts, err)"
    by (cases "try_pages f") auto
  show ?thesis
  proof (cases err)
    case None
    with t show ?thesis by (simp add: extract_text_from_pdf_def)
  next
    case (Some e)
    with t assms show ?thesis by (cases e) (simp_all add: extract_text_from_pdf_def)
  qed
qed

lemma process_file_returns:
  assumes enc: "\<forall>s. \<exists>toks. encoder s = Inr toks" and f: "uninterrupted f"
  shows "\<exists>evs st'. process_file encoder dirpath f st = (evs, Return st')"
proof -
  let ?p = "path_join dirpath (fname f)"
  from f obtain xevs xs where x: "extract_text_from_pdf ?p f = (xevs, Return xs)"
    using extract_text_from_pdf_returns [of f ?p] by (auto simp: uninterrupted_def)
  from f obtain b where b: "is_binary_file ?p f = ([Open ?p ''rb''], Return b)"
    using is_binary_file_returns [of f ?p] by (auto simp: uninterrupted_def)
  from f obtain revs rs where r: "read_text_file ?p f = (revs, Return rs)"
    using read_text_file_returns [of f ?p] by (auto simp: uninterrupted_def)
  from count_tokens_returns [OF enc] obtain cevs n where
    c: "count_tokens xs encoder = (cevs, Return n)" by blast
  from count_tokens_returns [OF enc] obtain cevs' n' where
    c': "count_tokens rs encoder = (cevs', Return n')" by blast
  show ?thesis
    by (simp add: process_file_def Let_def x b r c c' io_bind_Return)
qed

lemma process_files_returns:
  assumes "\<forall>s. \<exists>toks. encoder s = Inr toks"
  shows "\<forall>f\<in>set fs. uninterrupted f \<Longrightarrow>
         \<exists>evs st'. process_files encoder dirpath fs st = (evs, Return st')"
proof (induction fs arbitrary: st)
  case Nil
  then show ?case by simp
next
  case (Cons f fs)
  from Cons.prems have "uninterrupted f" by simp
  from process_file_returns [OF assms this] obtain evs1 st1 where
    a: "process_file encoder dirpath f st = (evs1, Return st1)" by blast
  from Cons.prems have "\<forall>g\<in>set fs. uninterrupted g" by simp
  from Cons.IH [OF this] obtain evs2 st2 where
    b: "process_files encoder dirpath fs st1 = (evs2, Return st2)" by blast
  show ?case by (simp add: a b io_bind_Return)
qed

lemma scan_walk_returns:
  assumes "\<forall>s. \<exists>toks. encoder s = Inr toks"
  shows "\<forall>f\<in>set (walked_files w). uninterrupted f \<Longrightarrow>
         \<exists>evs st'. scan_walk encoder w st = (evs, Return st')"
proof (induction w arbitrary: st)
  case Nil
  then show ?case by simp
next
  case (Cons x w)
  obtain dirpath dirs fs where x: "x = (dirpath, dirs, fs)" by (cases x) auto
  from Cons.prems x have "\<forall>f\<in>set fs. uninterrupted f"
    by (simp add: walked_files_def)
  from process_files_returns [OF assms this] obtain evs1 st1 where
    a: "process_files encoder dirpath fs st = (evs1, Return st1)" by blast
  from Cons.prems x have "\<forall>f\<in>set (walked_files w). uninterrupted f"
    by (simp add: walked_files_def)
  from Cons.IH [OF this] obtain evs2 st2 where
    b: "scan_walk encoder w st1 = (evs2, Return st2)" by blast
  show ?case by (simp add: x a b io_bind_Return)
qed

lemma run_completes_without_encoder_errors:
  assumes "lookup ev (base_path a) = Some tree"
      and "resolve_encoder ev (model a) = ([], Return enc)"
      and "\<forall>s. \<exists>toks. enc s = Inr toks"
      and "\<forall>f\<in>set (walked_files (os_walk (base_path a) tree)). uninterrupted f"
  shows "\<exists>evs st. main ev a = (evs @ summary st, Return ())"
proof -
  from scan_walk_returns [OF assms(3) assms(4)] obtain evs st where
    "scan_directory (base_path a) tree enc = (evs, Return st)"
    unfolding scan_directory_def by blast
  with assms(1,2) have "main ev a = (evs @ summary st, Return ())"
    by (simp add: main_def io_bind_Return)
  then show ?thesis by blast
qed

subsection \<open>Files whose name starts with a dot\<close>









end
